theory Spec2Isabelle
  imports Complex_Main "HOL-Library.Multiset" "HOL-Library.Sublist" "HOL-Library.Log_Nat"
begin

section \<open>Micro-Pickup: the game model of MicroPickup.py\<close>

text \<open>
  The program is a micro:bit game: a player LED walks over a 5x5 grid and collects
  pickups. This theory embeds the classes of \<^verbatim>\<open>MicroPickup.py\<close> (Position, GameObject,
  Player, Pickup, Game) as records and functions. MicroPickupCommented.py is the same
  program with comments; its Player has an extra field \<^verbatim>\<open>completion_time\<close> that is
  only ever set to 0.
\<close>

subsection \<open>Module constants\<close>

definition MAX_POSITION :: int where
  "MAX_POSITION = 4"

definition MIN_POSITION :: int where
  "MIN_POSITION = 0"

definition SCREEN_CENTER :: int where
  "SCREEN_CENTER = 2"

subsection \<open>Position and GameObject\<close>

text \<open>
  \<^verbatim>\<open>class Position: x = 0; y = 0\<close> and
  \<^verbatim>\<open>class GameObject: position = Position(); brightness = 0\<close>.
  Python integers are unbounded, so the coordinates are \<open>int\<close>. The Player uses the
  Position object of the class attribute and is the only object that does: every Pickup
  allocates a Position of its own in its constructor, so a position is a value here.
\<close>

record Position =
  x :: int
  y :: int

record GameObject =
  position :: Position
  brightness :: int

subsection \<open>Player\<close>

text \<open>\<^verbatim>\<open>Player.__init__\<close>: the center of the screen, full brightness.\<close>

definition Player_init :: GameObject where
  "Player_init =
     \<lparr>position = \<lparr>x = SCREEN_CENTER, y = SCREEN_CENTER\<rparr>, brightness = 9\<rparr>"

text \<open>\<^verbatim>\<open>Player.reset\<close> assigns both coordinates and nothing else.\<close>

definition reset :: "GameObject \<Rightarrow> GameObject" where
  "reset self =
     self\<lparr>position := (position self)\<lparr>x := SCREEN_CENTER, y := SCREEN_CENTER\<rparr>\<rparr>"

text \<open>
  \<^verbatim>\<open>Player.constrainToBoundaries\<close>: two early returns, then the value itself.
\<close>

definition constrainToBoundaries :: "int \<Rightarrow> int" where
  "constrainToBoundaries v =
     (if v < MIN_POSITION then MIN_POSITION
      else if v > MAX_POSITION then MAX_POSITION
      else v)"

text \<open>
  \<^verbatim>\<open>Player.move\<close>: an if/elif chain over the direction string with no final else,
  so any other string (the empty one included) changes nothing.
\<close>

definition move :: "string \<Rightarrow> GameObject \<Rightarrow> GameObject" where
  "move direction self =
     (if direction = ''N'' then
        self\<lparr>position := (position self)
          \<lparr>y := constrainToBoundaries (y (position self) - 1)\<rparr>\<rparr>
      else if direction = ''S'' then
        self\<lparr>position := (position self)
          \<lparr>y := constrainToBoundaries (y (position self) + 1)\<rparr>\<rparr>
      else if direction = ''W'' then
        self\<lparr>position := (position self)
          \<lparr>x := constrainToBoundaries (x (position self) - 1)\<rparr>\<rparr>
      else if direction = ''E'' then
        self\<lparr>position := (position self)
          \<lparr>x := constrainToBoundaries (x (position self) + 1)\<rparr>\<rparr>
      else self)"

subsection \<open>The platform: micro:bit sensors, clock, display and the random module\<close>

text \<open>
  The platform is outside the program. A call that returns a value (a sensor, the
  clock, a button, the random generator) reads the next element of the sequence of
  values that call will return; a call made for its effect (the display, the compass
  calibration, sleep) is appended to a log. The platform also fixes the format of a
  Python float: \<open>float_bits\<close> is the number of bits of its significand (53 for an
  IEEE double, 24 for a single). Nothing more is assumed about the platform.
\<close>

type_synonym 'a seq = "nat \<Rightarrow> 'a"

definition rest :: "'a seq \<Rightarrow> 'a seq" where
  "rest s = (\<lambda>n. s (Suc n))"

datatype Effect =
    DisplayClear
  | SetPixel int int int
  | Scroll string
  | ScrollDelay string int
  | Calibrate
  | Sleep int

record Env =
  headings :: "real seq"
  calibrated :: "bool seq"
  accel_x :: "int seq"
  accel_y :: "int seq"
  accel_z :: "int seq"
  presses_a :: "bool seq"
  presses_b :: "bool seq"
  clock :: "int seq"
  randoms :: "nat seq"
  float_bits :: nat
  effects :: "Effect list"

definition emit :: "Effect \<Rightarrow> Env \<Rightarrow> Env" where
  "emit f e = e\<lparr>effects := effects e @ [f]\<rparr>"

definition compass_heading :: "Env \<Rightarrow> real \<times> Env" where
  "compass_heading e = (headings e 0, e\<lparr>headings := rest (headings e)\<rparr>)"

definition compass_is_calibrated :: "Env \<Rightarrow> bool \<times> Env" where
  "compass_is_calibrated e = (calibrated e 0, e\<lparr>calibrated := rest (calibrated e)\<rparr>)"

definition accelerometer_get_x :: "Env \<Rightarrow> int \<times> Env" where
  "accelerometer_get_x e = (accel_x e 0, e\<lparr>accel_x := rest (accel_x e)\<rparr>)"

definition accelerometer_get_y :: "Env \<Rightarrow> int \<times> Env" where
  "accelerometer_get_y e = (accel_y e 0, e\<lparr>accel_y := rest (accel_y e)\<rparr>)"

definition accelerometer_get_z :: "Env \<Rightarrow> int \<times> Env" where
  "accelerometer_get_z e = (accel_z e 0, e\<lparr>accel_z := rest (accel_z e)\<rparr>)"

definition button_a_was_pressed :: "Env \<Rightarrow> bool \<times> Env" where
  "button_a_was_pressed e = (presses_a e 0, e\<lparr>presses_a := rest (presses_a e)\<rparr>)"

definition button_b_was_pressed :: "Env \<Rightarrow> bool \<times> Env" where
  "button_b_was_pressed e = (presses_b e 0, e\<lparr>presses_b := rest (presses_b e)\<rparr>)"

definition running_time :: "Env \<Rightarrow> int \<times> Env" where
  "running_time e = (clock e 0, e\<lparr>clock := rest (clock e)\<rparr>)"

text \<open>
  \<^verbatim>\<open>random.randrange(stop)\<close> returns an integer of \<open>range(stop)\<close>. The model reduces
  the next raw draw modulo \<open>stop\<close>, so every value of the range can come out and no
  other. The program calls it with \<open>stop = MAX_POSITION + 1\<close> only, which is positive.
\<close>

definition randrange :: "int \<Rightarrow> Env \<Rightarrow> int \<times> Env" where
  "randrange stop e = (int (randoms e 0) mod stop, e\<lparr>randoms := rest (randoms e)\<rparr>)"

text \<open>\<^verbatim>\<open>draw_pixel = microbit.display.set_pixel\<close>\<close>

definition draw_pixel :: "int \<Rightarrow> int \<Rightarrow> int \<Rightarrow> Env \<Rightarrow> Env" where
  "draw_pixel px py b e = emit (SetPixel px py b) e"

text \<open>\<^verbatim>\<open>Player.draw\<close>\<close>

definition Player_draw :: "GameObject \<Rightarrow> Env \<Rightarrow> Env" where
  "Player_draw self e =
     draw_pixel (x (position self)) (y (position self)) (brightness self) e"

subsection \<open>Pickup\<close>

text \<open>
  \<^verbatim>\<open>Pickup.__init__\<close>: a fresh Position, two draws (x first), brightness 3.
\<close>

definition Pickup_init :: "Env \<Rightarrow> GameObject \<times> Env" where
  "Pickup_init e0 =
     (let (rx, e1) = randrange (MAX_POSITION + 1) e0;
          (ry, e2) = randrange (MAX_POSITION + 1) e1
      in (\<lparr>position = \<lparr>x = rx, y = ry\<rparr>, brightness = 3\<rparr>, e2))"

subsection \<open>Game\<close>

text \<open>
  The list \<^verbatim>\<open>pickups\<close> holds Python objects, and \<^verbatim>\<open>list.remove\<close> compares them by
  identity (Pickup defines no \<^verbatim>\<open>__eq__\<close>). So the list holds references, and the
  objects live in a store; \<open>next_ref\<close> is the next reference a constructor call
  returns. The class attributes \<^verbatim>\<open>game_running\<close> and
  \<^verbatim>\<open>acceleration_needed_to_move\<close> are never assigned: they are constants.
\<close>

type_synonym ref = nat

record Game =
  player :: GameObject
  pickups :: "ref list"
  objects :: "ref \<Rightarrow> GameObject"
  next_ref :: ref

type_synonym World = "Game \<times> Env"

definition game_running :: bool where
  "game_running = True"

definition acceleration_needed_to_move :: int where
  "acceleration_needed_to_move = 1200"

text \<open>\<^verbatim>\<open>Game.setup\<close> (a static method) and the construction \<^verbatim>\<open>Game()\<close>.\<close>

definition Game_setup :: "Env \<Rightarrow> Env" where
  "Game_setup e0 =
     (let (c, e1) = compass_is_calibrated e0
      in if \<not> c then emit Calibrate e1 else e1)"

definition Game_init :: "Env \<Rightarrow> World" where
  "Game_init e =
     (\<lparr>player = Player_init, pickups = [],
       objects = (\<lambda>r. \<lparr>position = \<lparr>x = 0, y = 0\<rparr>, brightness = 0\<rparr>),
       next_ref = 0\<rparr>,
      Game_setup e)"

text \<open>
  \<^verbatim>\<open>Game.spawnPickups\<close>: clear the list, then \<^verbatim>\<open>for x in range(amount)\<close> construct
  a Pickup and append it. \<open>range\<close> of a number below 1 is empty.
\<close>

fun spawn_body :: "World \<Rightarrow> World" where
  "spawn_body (g, e) =
     (let (new_pickup, e') = Pickup_init e;
          r = next_ref g
      in (g\<lparr>pickups := pickups g @ [r],
            objects := (objects g)(r := new_pickup),
            next_ref := Suc r\<rparr>, e'))"

primrec spawn_loop :: "nat \<Rightarrow> World \<Rightarrow> World" where
  "spawn_loop 0 w = w"
| "spawn_loop (Suc n) w = spawn_loop n (spawn_body w)"

fun spawnPickups :: "int \<Rightarrow> World \<Rightarrow> World" where
  "spawnPickups amount (g, e) = spawn_loop (nat amount) (g\<lparr>pickups := []\<rparr>, e)"

text \<open>\<^verbatim>\<open>Game.drawPickups\<close>\<close>

fun drawPickups :: "World \<Rightarrow> World" where
  "drawPickups (g, e) =
     (g, foldl (\<lambda>e' pickup.
                  draw_pixel (x (position (objects g pickup)))
                    (y (position (objects g pickup)))
                    (brightness (objects g pickup)) e')
           e (pickups g))"

text \<open>
  \<^verbatim>\<open>Game.findApproxFacingDirection\<close> calls \<^verbatim>\<open>compass.heading()\<close> anew in every
  comparison, and Python's \<^verbatim>\<open>or\<close> and \<^verbatim>\<open>and\<close> evaluate their right operand only
  when the left one does not decide.
\<close>

definition heading_gt :: "real \<Rightarrow> Env \<Rightarrow> bool \<times> Env" where
  "heading_gt c e = (let (h, e') = compass_heading e in (h > c, e'))"

definition heading_lt :: "real \<Rightarrow> Env \<Rightarrow> bool \<times> Env" where
  "heading_lt c e = (let (h, e') = compass_heading e in (h < c, e'))"

definition py_or :: "(Env \<Rightarrow> bool \<times> Env) \<Rightarrow> (Env \<Rightarrow> bool \<times> Env) \<Rightarrow> Env \<Rightarrow> bool \<times> Env" where
  "py_or a b e = (let (r, e') = a e in if r then (True, e') else b e')"

definition py_and :: "(Env \<Rightarrow> bool \<times> Env) \<Rightarrow> (Env \<Rightarrow> bool \<times> Env) \<Rightarrow> Env \<Rightarrow> bool \<times> Env" where
  "py_and a b e = (let (r, e') = a e in if r then b e' else (False, e'))"

definition findApproxFacingDirection :: "Env \<Rightarrow> string \<times> Env" where
  "findApproxFacingDirection e0 =
     (let (c1, e1) = py_or (heading_gt 315) (heading_lt 45) e0 in
      if c1 then (''N'', e1)
      else let (c2, e2) = py_and (heading_gt 225) (heading_lt 315) e1 in
      if c2 then (''W'', e2)
      else let (c3, e3) = py_and (heading_gt 135) (heading_lt 225) e2 in
      if c3 then (''S'', e3)
      else let (c4, e4) = py_and (heading_gt 45) (heading_lt 135) e3 in
      if c4 then (''E'', e4)
      else ('''', e4))"

text \<open>
  \<^verbatim>\<open>Game.getAcceleration\<close>. \<^verbatim>\<open>math.sqrt\<close> is taken as the real square root: the
  model does not round.
\<close>

definition getAcceleration :: "Env \<Rightarrow> real \<times> Env" where
  "getAcceleration e0 =
     (let (ax, e1) = accelerometer_get_x e0;
          (ay, e2) = accelerometer_get_y e1;
          (az, e3) = accelerometer_get_z e2;
          acceleration = sqrt (real_of_int (ax ^ 2 + ay ^ 2 + az ^ 2))
      in (acceleration, e3))"

text \<open>
  \<^verbatim>\<open>Game.update\<close>. A Python \<^verbatim>\<open>for\<close> over a list keeps an index into the list: each
  round it stops if the index has reached the current length, and otherwise takes the
  element at the index and advances. The body removes from the very list the loop runs
  over; \<^verbatim>\<open>remove\<close> deletes the first occurrence of the reference, which is in
  the list, so the call cannot fail.
\<close>

definition update_body :: "ref \<Rightarrow> Game \<Rightarrow> Game" where
  "update_body pickup g =
     (if x (position (objects g pickup)) = x (position (player g)) then
        if y (position (objects g pickup)) = y (position (player g)) then
          g\<lparr>pickups := remove1 pickup (pickups g)\<rparr>
        else g
      else g)"

function update_loop :: "nat \<Rightarrow> Game \<Rightarrow> Game" where
  "update_loop i g =
     (if i < length (pickups g)
      then update_loop (Suc i) (update_body (pickups g ! i) g)
      else g)"
  by pat_completeness auto
termination
  by (relation "measure (\<lambda>(i, g). length (pickups g) - i)")
    (auto simp: update_body_def length_remove1)

declare update_loop.simps [simp del]

definition update :: "Game \<Rightarrow> Game" where
  "update g = update_loop 0 g"

text \<open>\<^verbatim>\<open>Game.startLevel\<close>\<close>

definition startLevel :: "int \<Rightarrow> World \<Rightarrow> World" where
  "startLevel amount w =
     (let (g, e) = spawnPickups amount w
      in (g\<lparr>player := reset (player g)\<rparr>, emit DisplayClear e))"

text \<open>\<^verbatim>\<open>Game.getInput\<close>\<close>

fun getInput :: "World \<Rightarrow> World" where
  "getInput (g0, e0) =
     (let (direction, e1) = findApproxFacingDirection e0;
          (acceleration, e2) = getAcceleration e1;
          g1 = (if acceleration > real_of_int acceleration_needed_to_move
                then g0\<lparr>player := move direction (player g0)\<rparr> else g0);
          (b, e3) = button_b_was_pressed e2
      in if b then
           let scroll_delay = 100;
               (d, e4) = findApproxFacingDirection e3
           in (g1, emit (ScrollDelay d scroll_delay) e4)
         else
           let (a, e4) = button_a_was_pressed e3
           in if a then (g1, emit Calibrate e4) else (g1, e4))"

text \<open>\<^verbatim>\<open>Game.draw\<close> and \<^verbatim>\<open>Game.isGameOver\<close>\<close>

fun Game_draw :: "World \<Rightarrow> World" where
  "Game_draw (g, e) =
     (let (g', e') = drawPickups (g, emit DisplayClear e)
      in (g', Player_draw (player g') e'))"

definition isGameOver :: "Game \<Rightarrow> bool" where
  "isGameOver g =
     (let is_pickups_empty = int (length (pickups g)) < 1
      in if is_pickups_empty then True else False)"

subsection \<open>The game loop\<close>

text \<open>
  Python's \<^verbatim>\<open>/\<close> on two integers is true division: the result is a float, the
  binary floating-point number with \<open>p\<close> significand bits that is nearest to the exact
  quotient, a tie going to the even significand. With \<open>e\<close> the exponent of the
  quotient (\<open>2\<^sup>e \<le> |a / b| < 2\<^sup>e\<^sup>+\<^sup>1\<close>, found from the bit lengths of the operands), the
  floats around the quotient are the multiples of \<open>2\<^sup>e\<^sup>-\<^sup>p\<^sup>+\<^sup>1\<close>. The range of the exponent
  is not limited here: a quotient beyond the largest float, where Python raises
  OverflowError, is rounded like any other. A divisor 0 raises ZeroDivisionError; the
  program divides by 1000 only.
\<close>

definition round_half_even :: "real \<Rightarrow> int" where
  "round_half_even r =
     (let f = \<lfloor>r\<rfloor>; d = r - real_of_int f
      in if d < 1 / 2 then f
         else if 1 / 2 < d then f + 1
         else if even f then f else f + 1)"

definition quotient_exponent :: "int \<Rightarrow> int \<Rightarrow> int" where
  "quotient_exponent a b =
     (let d = bitlen a - bitlen b
      in if real_of_int b * 2 powi d \<le> real_of_int a then d else d - 1)"

definition float_truediv :: "nat \<Rightarrow> int \<Rightarrow> int \<Rightarrow> real" where
  "float_truediv p a b =
     (if a = 0 then 0
      else let e = quotient_exponent \<bar>a\<bar> \<bar>b\<bar>;
               u = 2 powi (e - int p + 1)
           in real_of_int (round_half_even (real_of_int a / real_of_int b / u)) * u)"

text \<open>
  \<^verbatim>\<open>int\<close> of a float truncates toward zero and \<^verbatim>\<open>str\<close> of an integer is its
  decimal numeral.
\<close>

definition py_int :: "real \<Rightarrow> int" where
  "py_int r = (if r < 0 then \<lceil>r\<rceil> else \<lfloor>r\<rfloor>)"

fun str_nat :: "nat \<Rightarrow> string" where
  "str_nat n =
     (if n < 10 then [''0123456789'' ! n]
      else str_nat (n div 10) @ [''0123456789'' ! (n mod 10)])"

definition str :: "int \<Rightarrow> string" where
  "str i = (if i < 0 then CHR ''-'' # str_nat (nat (- i)) else str_nat (nat i))"

text \<open>
  The local variables of \<^verbatim>\<open>Game.playGame\<close> with the state they act on.
  \<^verbatim>\<open>level_start_time\<close> is assigned once per level, before the inner loop, which only
  reads it: it is a parameter of the inner loop.
\<close>

record PlayGame =
  game :: Game
  env :: Env
  pickup_amount :: int

text \<open>The body of the inner \<^verbatim>\<open>while\<close>: one tick.\<close>

definition playGame_body :: "int \<Rightarrow> PlayGame \<Rightarrow> PlayGame" where
  "playGame_body level_start_time s =
     (let (g1, e1) = getInput (game s, env s);
          g2 = update g1;
          (g3, e3) = Game_draw (g2, e1);
          s' = (if isGameOver g3 then
                  let (current_time, e4) = running_time e3;
                      seconds_elapsed =
                        float_truediv (float_bits e4) (current_time - level_start_time) 1000;
                      e5 = emit (Scroll (''TIME:'' @ str (py_int seconds_elapsed) @ '' SECONDS.'')) e4
                  in \<lparr>game = g3, env = e5, pickup_amount = pickup_amount s + 1\<rparr>
                else \<lparr>game = g3, env = e3, pickup_amount = pickup_amount s\<rparr>)
      in s'\<lparr>env := emit (Sleep 100) (env s')\<rparr>)"

text \<open>
  The inner loop \<^verbatim>\<open>while not self.isGameOver()\<close> runs for as long as the player has
  not collected every pickup, which may be forever: not returning is \<open>None\<close>.
\<close>

partial_function (option) playGame_level :: "int \<Rightarrow> PlayGame \<Rightarrow> PlayGame option" where
  "playGame_level level_start_time s =
     (if \<not> isGameOver (game s)
      then playGame_level level_start_time (playGame_body level_start_time s)
      else Some s)"

text \<open>The body of the outer \<^verbatim>\<open>while\<close>: one level.\<close>

definition playGame_round :: "PlayGame \<Rightarrow> PlayGame option" where
  "playGame_round s =
     (let (g, e) = startLevel (pickup_amount s) (game s, env s);
          (level_start_time, e') = running_time e
      in playGame_level level_start_time
           \<lparr>game = g, env = e', pickup_amount = pickup_amount s\<rparr>)"

partial_function (option) playGame_loop :: "PlayGame \<Rightarrow> PlayGame option" where
  "playGame_loop s =
     (if game_running then Option.bind (playGame_round s) playGame_loop else Some s)"

declare playGame_level.simps [code]
declare playGame_loop.simps [code]

text \<open>
  \<^verbatim>\<open>Game.playGame\<close>: the greeting, \<^verbatim>\<open>pickup_amount = 4\<close>, then the loop.
\<close>

fun playGame_entry :: "World \<Rightarrow> PlayGame" where
  "playGame_entry (g, e) =
     \<lparr>game = g, env = emit (Scroll ''WALK TO PICK UP ITEMS.'') e, pickup_amount = 4\<rparr>"

definition playGame :: "World \<Rightarrow> PlayGame option" where
  "playGame w = playGame_loop (playGame_entry w)"

definition main :: "Env \<Rightarrow> PlayGame option" where
  "main e = playGame (Game_init e)"

subsection \<open>The grid invariant and sample objects\<close>

text \<open>A position is on the grid when both coordinates lie between the two bounds.\<close>

definition in_grid :: "Position \<Rightarrow> bool" where
  "in_grid p =
     (MIN_POSITION \<le> x p \<and> x p \<le> MAX_POSITION
      \<and> MIN_POSITION \<le> y p \<and> y p \<le> MAX_POSITION)"

definition Game_inv :: "Game \<Rightarrow> bool" where
  "Game_inv g =
     (in_grid (position (player g))
      \<and> (\<forall>r \<in> set (pickups g). in_grid (position (objects g r))))"

text \<open>A pickup and a player as their constructors leave them, at a chosen cell.\<close>

definition pickup_at :: "int \<Rightarrow> int \<Rightarrow> GameObject" where
  "pickup_at a b = \<lparr>position = \<lparr>x = a, y = b\<rparr>, brightness = 3\<rparr>"

definition player_at :: "int \<Rightarrow> int \<Rightarrow> GameObject" where
  "player_at a b = \<lparr>position = \<lparr>x = a, y = b\<rparr>, brightness = 9\<rparr>"

text \<open>
  A sample environment: the device lies still (gravity on the z axis only) and faces
  north, no button is pressed, the clock advances by 2500 ms from one reading to the
  next, every random draw is 2, so that every pickup spawns on the center cell, and a
  float is an IEEE double.
\<close>

definition env_center :: Env where
  "env_center =
     \<lparr>headings = (\<lambda>_. 0), calibrated = (\<lambda>_. True),
      accel_x = (\<lambda>_. 0), accel_y = (\<lambda>_. 0), accel_z = (\<lambda>_. - 1000),
      presses_a = (\<lambda>_. False), presses_b = (\<lambda>_. False),
      clock = (\<lambda>n. 2500 * int n), randoms = (\<lambda>_. 2), float_bits = 53,
      effects = []\<rparr>"

section \<open>Properties\<close>

subsection \<open>Grid geometry\<close>

lemma constrainToBoundaries_range:
  "MIN_POSITION \<le> constrainToBoundaries v \<and> constrainToBoundaries v \<le> MAX_POSITION"
  by (simp add: constrainToBoundaries_def MIN_POSITION_def MAX_POSITION_def)

text \<open>
  Claim C7. The clamp is idempotent, it is the identity on the values 0..4, and it
  saturates: every value below 0 is sent to 0 and every value above 4 to 4.
\<close>

theorem constrainToBoundaries_clamp:
  "constrainToBoundaries (constrainToBoundaries v) = constrainToBoundaries v
   \<and> (0 \<le> v \<and> v \<le> 4 \<longrightarrow> constrainToBoundaries v = v)
   \<and> (v < 0 \<longrightarrow> constrainToBoundaries v = 0)
   \<and> (v > 4 \<longrightarrow> constrainToBoundaries v = 4)"
  by (simp add: constrainToBoundaries_def MIN_POSITION_def MAX_POSITION_def)

theorem constrainToBoundaries_clamp_witness:
  "constrainToBoundaries (constrainToBoundaries 3) = constrainToBoundaries 3
   \<and> constrainToBoundaries 3 = 3
   \<and> constrainToBoundaries (- 7) = 0
   \<and> constrainToBoundaries 12 = 4"
  using constrainToBoundaries_clamp [of 3] constrainToBoundaries_clamp [of "- 7"]
    constrainToBoundaries_clamp [of 12]
  by simp

text \<open>
  Claim C6. A player at \<open>(0, b)\<close> moving West and a player at \<open>(4, b)\<close> moving East
  stay where they are, for every \<open>b\<close>; the empty direction changes nothing; and on the
  grid each cardinal direction moves one cell along its axis, stopping at the border.
\<close>

theorem move_one_cell:
  "move ''W'' (p\<lparr>position := \<lparr>x = 0, y = b\<rparr>\<rparr>) = p\<lparr>position := \<lparr>x = 0, y = b\<rparr>\<rparr>
   \<and> move ''E'' (p\<lparr>position := \<lparr>x = 4, y = b\<rparr>\<rparr>) = p\<lparr>position := \<lparr>x = 4, y = b\<rparr>\<rparr>
   \<and> move [] p = p
   \<and> (in_grid (position p) \<longrightarrow>
        move ''N'' p = p\<lparr>position := (position p)\<lparr>y := max 0 (y (position p) - 1)\<rparr>\<rparr>
      \<and> move ''S'' p = p\<lparr>position := (position p)\<lparr>y := min 4 (y (position p) + 1)\<rparr>\<rparr>
      \<and> move ''W'' p = p\<lparr>position := (position p)\<lparr>x := max 0 (x (position p) - 1)\<rparr>\<rparr>
      \<and> move ''E'' p = p\<lparr>position := (position p)\<lparr>x := min 4 (x (position p) + 1)\<rparr>\<rparr>)"
  by (simp add: move_def constrainToBoundaries_def MIN_POSITION_def MAX_POSITION_def in_grid_def)

theorem move_one_cell_witness:
  "in_grid (position (player_at 4 0))
   \<and> move ''N'' (player_at 4 0) = player_at 4 0
   \<and> move ''S'' (player_at 4 0) = player_at 4 1
   \<and> move ''W'' (player_at 4 0) = player_at 3 0
   \<and> move ''E'' (player_at 4 0) = player_at 4 0"
  using move_one_cell [where p = "player_at 4 0" and b = 0]
  by (simp add: in_grid_def MIN_POSITION_def MAX_POSITION_def player_at_def)

subsection \<open>Direction sensing\<close>

lemma rest_const [simp]: "rest (\<lambda>_. c) = (\<lambda>_. c)"
  by (simp add: rest_def)

text \<open>
  Claim C2. With the compass reading the same heading \<open>h\<close> of \<open>[0, 360)\<close> at every call,
  the direction is N for \<open>h > 315\<close> or \<open>h < 45\<close>, W for \<open>225 < h < 315\<close>, S for
  \<open>135 < h < 225\<close>, E for \<open>45 < h < 135\<close>, and the empty string at 45, 135, 225 and 315.
\<close>

theorem findApproxFacingDirection_table:
  "0 \<le> h \<and> h < 360 \<longrightarrow>
     (let d = fst (findApproxFacingDirection (e\<lparr>headings := (\<lambda>_. h)\<rparr>)) in
        (h > 315 \<or> h < 45 \<longrightarrow> d = ''N'')
      \<and> (225 < h \<and> h < 315 \<longrightarrow> d = ''W'')
      \<and> (135 < h \<and> h < 225 \<longrightarrow> d = ''S'')
      \<and> (45 < h \<and> h < 135 \<longrightarrow> d = ''E'')
      \<and> (h = 45 \<or> h = 135 \<or> h = 225 \<or> h = 315 \<longrightarrow> d = []))"
  by (auto simp add: findApproxFacingDirection_def py_or_def py_and_def heading_gt_def
      heading_lt_def compass_heading_def Let_def)

theorem findApproxFacingDirection_table_witness:
  "fst (findApproxFacingDirection (env_center\<lparr>headings := (\<lambda>_. 10)\<rparr>)) = ''N''
   \<and> fst (findApproxFacingDirection (env_center\<lparr>headings := (\<lambda>_. 350)\<rparr>)) = ''N''
   \<and> fst (findApproxFacingDirection (env_center\<lparr>headings := (\<lambda>_. 280)\<rparr>)) = ''W''
   \<and> fst (findApproxFacingDirection (env_center\<lparr>headings := (\<lambda>_. 200)\<rparr>)) = ''S''
   \<and> fst (findApproxFacingDirection (env_center\<lparr>headings := (\<lambda>_. 100)\<rparr>)) = ''E''
   \<and> fst (findApproxFacingDirection (env_center\<lparr>headings := (\<lambda>_. 45)\<rparr>)) = []"
  using findApproxFacingDirection_table [where h = 10 and e = env_center]
    findApproxFacingDirection_table [where h = 350 and e = env_center]
    findApproxFacingDirection_table [where h = 280 and e = env_center]
    findApproxFacingDirection_table [where h = 200 and e = env_center]
    findApproxFacingDirection_table [where h = 100 and e = env_center]
    findApproxFacingDirection_table [where h = 45 and e = env_center]
  by (simp add: Let_def)

subsection \<open>Level start\<close>

lemma spawn_loop_player: "player (fst (spawn_loop n w)) = player (fst w)"
  by (induction n arbitrary: w) (auto simp: Let_def split: prod.splits)

lemma spawnPickups_player: "player (fst (spawnPickups n w)) = player (fst w)"
  by (cases w) (simp add: spawn_loop_player)

text \<open>
  Claim C9. After \<open>startLevel\<close> the player stands on the center cell \<open>(2, 2)\<close> and has
  the brightness it had before the call; the constructor sets that brightness to 9.
\<close>

theorem startLevel_player:
  "position (player (fst (startLevel n w))) = \<lparr>x = 2, y = 2\<rparr>
   \<and> brightness (player (fst (startLevel n w))) = brightness (player (fst w))
   \<and> brightness Player_init = 9"
  using spawnPickups_player [of n w]
  by (simp add: startLevel_def reset_def SCREEN_CENTER_def Player_init_def split_def Let_def)

subsection \<open>Motion trigger\<close>

lemma getAcceleration_value:
  "fst (getAcceleration e) =
     sqrt (real_of_int ((accel_x e 0)\<^sup>2 + (accel_y e 0)\<^sup>2 + (accel_z e 0)\<^sup>2))"
  by (simp add: getAcceleration_def accelerometer_get_x_def accelerometer_get_y_def
      accelerometer_get_z_def Let_def)

lemma sqrt_gt_1200: "sqrt (real_of_int n) > 1200 \<longleftrightarrow> n > 1440000"
proof -
  have "sqrt (real_of_int n) > 1200 \<longleftrightarrow> sqrt (real_of_int n) > sqrt 1440000"
    by simp
  also have "\<dots> \<longleftrightarrow> real_of_int n > 1440000"
    by (rule real_sqrt_less_iff)
  also have "\<dots> \<longleftrightarrow> n > 1440000"
    by linarith
  finally show ?thesis .
qed

lemma findApproxFacingDirection_accel:
  "accel_x (snd (findApproxFacingDirection e)) = accel_x e
   \<and> accel_y (snd (findApproxFacingDirection e)) = accel_y e
   \<and> accel_z (snd (findApproxFacingDirection e)) = accel_z e"
  by (simp add: findApproxFacingDirection_def py_or_def py_and_def heading_gt_def
      heading_lt_def compass_heading_def Let_def)

lemma getInput_player:
  "player (fst (getInput (g, e))) =
     (if fst (getAcceleration (snd (findApproxFacingDirection e))) > 1200
      then move (fst (findApproxFacingDirection e)) (player g) else player g)"
  by (simp add: split_def Let_def acceleration_needed_to_move_def)

lemma getInput_player_squares:
  "player (fst (getInput (g, e))) =
     (if (accel_x e 0)\<^sup>2 + (accel_y e 0)\<^sup>2 + (accel_z e 0)\<^sup>2 > 1440000
      then move (fst (findApproxFacingDirection e)) (player g) else player g)"
  by (simp only: getInput_player getAcceleration_value findApproxFacingDirection_accel
      sqrt_gt_1200)

lemma sqrt_squares_gt_1200:
  "1200 < sqrt ((real_of_int a)\<^sup>2 + (real_of_int b)\<^sup>2 + (real_of_int c)\<^sup>2)
   \<longleftrightarrow> 1440000 < a\<^sup>2 + b\<^sup>2 + c\<^sup>2"
  using sqrt_gt_1200 [of "a\<^sup>2 + b\<^sup>2 + c\<^sup>2"] by simp

text \<open>
  The same function with the comparison of the magnitude written on the integers, so
  that it can be evaluated on concrete readings.
\<close>

lemma getInput_code [code]:
  "getInput (g0, e0) =
     (let (direction, e1) = findApproxFacingDirection e0;
          (ax, e2) = accelerometer_get_x e1;
          (ay, e3) = accelerometer_get_y e2;
          (az, e4) = accelerometer_get_z e3;
          g1 = (if 1440000 < ax\<^sup>2 + ay\<^sup>2 + az\<^sup>2
                then g0\<lparr>player := move direction (player g0)\<rparr> else g0);
          (b, e5) = button_b_was_pressed e4
      in if b then
           let (d, e6) = findApproxFacingDirection e5
           in (g1, emit (ScrollDelay d 100) e6)
         else
           let (a, e6) = button_a_was_pressed e5
           in if a then (g1, emit Calibrate e6) else (g1, e6))"
  by (simp add: getAcceleration_def split_def Let_def acceleration_needed_to_move_def
      sqrt_squares_gt_1200)

text \<open>
  Claim C3. \<open>getInput\<close> calls \<open>move\<close> exactly when the magnitude
  \<open>sqrt (x\<^sup>2 + y\<^sup>2 + z\<^sup>2)\<close> of the three readings exceeds 1200, that is when the sum of
  squares exceeds \<open>1200\<^sup>2\<close>. At the readings \<open>(1200, 0, 0)\<close> and \<open>(1000, 0, 0)\<close> the
  player is left alone; at \<open>(1201, 0, 0)\<close> it is moved.
\<close>

theorem getInput_motion_trigger:
  "fst (getAcceleration e) =
     sqrt (real_of_int ((accel_x e 0)\<^sup>2 + (accel_y e 0)\<^sup>2 + (accel_z e 0)\<^sup>2))
   \<and> player (fst (getInput (g, e))) =
     (if sqrt (real_of_int ((accel_x e 0)\<^sup>2 + (accel_y e 0)\<^sup>2 + (accel_z e 0)\<^sup>2)) > 1200
      then move (fst (findApproxFacingDirection e)) (player g) else player g)
   \<and> (sqrt (real_of_int ((accel_x e 0)\<^sup>2 + (accel_y e 0)\<^sup>2 + (accel_z e 0)\<^sup>2)) > 1200
        \<longleftrightarrow> (accel_x e 0)\<^sup>2 + (accel_y e 0)\<^sup>2 + (accel_z e 0)\<^sup>2 > 1440000)
   \<and> player (fst (getInput (g,
        e\<lparr>accel_x := (\<lambda>_. 1200), accel_y := (\<lambda>_. 0), accel_z := (\<lambda>_. 0)\<rparr>))) = player g
   \<and> player (fst (getInput (g,
        e\<lparr>accel_x := (\<lambda>_. 1201), accel_y := (\<lambda>_. 0), accel_z := (\<lambda>_. 0)\<rparr>))) =
      move (fst (findApproxFacingDirection
        (e\<lparr>accel_x := (\<lambda>_. 1201), accel_y := (\<lambda>_. 0), accel_z := (\<lambda>_. 0)\<rparr>))) (player g)
   \<and> player (fst (getInput (g,
        e\<lparr>accel_x := (\<lambda>_. 1000), accel_y := (\<lambda>_. 0), accel_z := (\<lambda>_. 0)\<rparr>))) = player g"
proof (intro conjI)
  show "fst (getAcceleration e) =
     sqrt (real_of_int ((accel_x e 0)\<^sup>2 + (accel_y e 0)\<^sup>2 + (accel_z e 0)\<^sup>2))"
    by (rule getAcceleration_value)
  show "player (fst (getInput (g, e))) =
     (if sqrt (real_of_int ((accel_x e 0)\<^sup>2 + (accel_y e 0)\<^sup>2 + (accel_z e 0)\<^sup>2)) > 1200
      then move (fst (findApproxFacingDirection e)) (player g) else player g)"
    by (simp only: getInput_player getAcceleration_value findApproxFacingDirection_accel)
  show "sqrt (real_of_int ((accel_x e 0)\<^sup>2 + (accel_y e 0)\<^sup>2 + (accel_z e 0)\<^sup>2)) > 1200
        \<longleftrightarrow> (accel_x e 0)\<^sup>2 + (accel_y e 0)\<^sup>2 + (accel_z e 0)\<^sup>2 > 1440000"
    by (rule sqrt_gt_1200)
  show "player (fst (getInput (g,
        e\<lparr>accel_x := (\<lambda>_. 1200), accel_y := (\<lambda>_. 0), accel_z := (\<lambda>_. 0)\<rparr>))) = player g"
    by (simp add: getInput_player_squares del: getInput.simps)
  show "player (fst (getInput (g,
        e\<lparr>accel_x := (\<lambda>_. 1201), accel_y := (\<lambda>_. 0), accel_z := (\<lambda>_. 0)\<rparr>))) =
      move (fst (findApproxFacingDirection
        (e\<lparr>accel_x := (\<lambda>_. 1201), accel_y := (\<lambda>_. 0), accel_z := (\<lambda>_. 0)\<rparr>))) (player g)"
    by (simp add: getInput_player_squares del: getInput.simps)
  show "player (fst (getInput (g,
        e\<lparr>accel_x := (\<lambda>_. 1000), accel_y := (\<lambda>_. 0), accel_z := (\<lambda>_. 0)\<rparr>))) = player g"
    by (simp add: getInput_player_squares del: getInput.simps)
qed

text \<open>
  A sample of both outcomes: facing north at the center, a reading of magnitude 1201
  takes the player one cell up, and a reading of magnitude 1200 leaves it in place.
\<close>

lemma getInput_sample:
  "player (fst (getInput
      (\<lparr>player = player_at 2 2, pickups = [], objects = (\<lambda>r. pickup_at 0 0), next_ref = 0\<rparr>,
       env_center\<lparr>accel_x := (\<lambda>_. 1201), accel_z := (\<lambda>_. 0)\<rparr>))) = player_at 2 1
   \<and> player (fst (getInput
      (\<lparr>player = player_at 2 2, pickups = [], objects = (\<lambda>r. pickup_at 0 0), next_ref = 0\<rparr>,
       env_center\<lparr>accel_x := (\<lambda>_. 1200), accel_z := (\<lambda>_. 0)\<rparr>))) = player_at 2 2"
  by (simp add: getInput_player_squares env_center_def findApproxFacingDirection_def
      py_or_def heading_gt_def heading_lt_def compass_heading_def move_def
      constrainToBoundaries_def MIN_POSITION_def MAX_POSITION_def player_at_def
      del: getInput.simps)

subsection \<open>Collision update\<close>

lemma update_body_frame:
  "player (update_body p g) = player g \<and> objects (update_body p g) = objects g
   \<and> next_ref (update_body p g) = next_ref g"
  by (simp add: update_body_def)

lemma update_loop_frame:
  "player (update_loop i g) = player g \<and> objects (update_loop i g) = objects g
   \<and> next_ref (update_loop i g) = next_ref g"
proof (induction i g rule: update_loop.induct)
  case (1 i g)
  show ?case
  proof (cases "i < length (pickups g)")
    case True
    then have "update_loop i g = update_loop (Suc i) (update_body (pickups g ! i) g)"
      by (subst update_loop.simps) simp
    with "1" True show ?thesis by (simp add: update_body_frame)
  next
    case False
    then have "update_loop i g = g" by (subst update_loop.simps) simp
    then show ?thesis by simp
  qed
qed

lemma subseq_remove1: "subseq (remove1 a xs) xs"
  by (induction xs) auto

lemma update_body_subseq: "subseq (pickups (update_body p g)) (pickups g)"
  by (simp add: update_body_def subseq_remove1)

lemma update_loop_subseq: "subseq (pickups (update_loop i g)) (pickups g)"
proof (induction i g rule: update_loop.induct)
  case (1 i g)
  show ?case
  proof (cases "i < length (pickups g)")
    case True
    then have "update_loop i g = update_loop (Suc i) (update_body (pickups g ! i) g)"
      by (subst update_loop.simps) simp
    moreover have "subseq (pickups (update_loop (Suc i) (update_body (pickups g ! i) g)))
        (pickups (update_body (pickups g ! i) g))"
      using "1" True by simp
    ultimately show ?thesis
      using update_body_subseq [of "pickups g ! i" g] subseq_order.order_trans by metis
  next
    case False
    then have "update_loop i g = g" by (subst update_loop.simps) simp
    then show ?thesis by simp
  qed
qed

lemma mset_diff_trans:
  "r \<in># A - C \<Longrightarrow> r \<in># A - B \<or> r \<in># B - C"
  by (auto simp: in_diff_count)

lemma mset_diff_remove1: "r \<in># mset xs - mset (remove1 a xs) \<Longrightarrow> r = a"
  by (cases "r = a") (auto simp: in_diff_count)

lemma update_body_removed:
  assumes "r \<in># mset (pickups g) - mset (pickups (update_body p g))"
  shows "r = p \<and> x (position (objects g p)) = x (position (player g))
     \<and> y (position (objects g p)) = y (position (player g))"
proof (cases "pickups (update_body p g) = pickups g")
  case True
  with assms show ?thesis by simp
next
  case False
  then have m: "x (position (objects g p)) = x (position (player g))"
    "y (position (objects g p)) = y (position (player g))"
    "pickups (update_body p g) = remove1 p (pickups g)"
    by (auto simp: update_body_def split: if_splits)
  with assms have "r = p" using mset_diff_remove1 by metis
  with m show ?thesis by simp
qed

lemma update_loop_removed:
  "r \<in># mset (pickups g) - mset (pickups (update_loop i g))
   \<Longrightarrow> x (position (objects g r)) = x (position (player g))
     \<and> y (position (objects g r)) = y (position (player g))"
proof (induction i g arbitrary: r rule: update_loop.induct)
  case (1 i g)
  show ?case
  proof (cases "i < length (pickups g)")
    case True
    define g' where "g' = update_body (pickups g ! i) g"
    have step: "update_loop i g = update_loop (Suc i) g'"
      using True by (subst update_loop.simps) (simp add: g'_def)
    have same: "objects g' = objects g" "player g' = player g"
      by (simp_all add: g'_def update_body_frame)
    from "1.prems" have "r \<in># mset (pickups g) - mset (pickups (update_loop (Suc i) g'))"
      by (simp only: step)
    then consider "r \<in># mset (pickups g) - mset (pickups g')"
      | "r \<in># mset (pickups g') - mset (pickups (update_loop (Suc i) g'))"
      using mset_diff_trans by fast
    then show ?thesis
    proof cases
      case 1
      then show ?thesis
        using update_body_removed [of r g "pickups g ! i"] by (simp add: g'_def)
    next
      case 2
      then show ?thesis using "1.IH" [OF True, of r] same by (simp add: g'_def)
    qed
  next
    case False
    then have "update_loop i g = g" by (subst update_loop.simps) simp
    with "1.prems" show ?thesis by simp
  qed
qed

text \<open>The spec's sample: player at (2,2), pickups at (2,2) and (3,3); the second stays.\<close>

lemma update_sample:
  "pickups (update \<lparr>player = player_at 2 2, pickups = [0, 1],
      objects = (\<lambda>r. if r = 0 then pickup_at 2 2 else pickup_at 3 3), next_ref = 2\<rparr>) = [1]"
  by (simp add: update_def update_loop.simps update_body_def pickup_at_def player_at_def)

text \<open>
  Claim C10. \<open>update\<close> changes the list of pickups only: the player, the stored objects
  (so every position and brightness) and the allocation counter stay; the new list is a
  subsequence of the old one; and every reference taken out of the list denotes an
  object whose coordinates equal the player's.
\<close>

theorem update_only_removes:
  "player (update g) = player g
   \<and> objects (update g) = objects g
   \<and> next_ref (update g) = next_ref g
   \<and> subseq (pickups (update g)) (pickups g)
   \<and> (\<forall>r \<in># mset (pickups g) - mset (pickups (update g)).
         x (position (objects g r)) = x (position (player g))
       \<and> y (position (objects g r)) = y (position (player g)))"
  unfolding update_def
  using update_loop_frame [of 0 g] update_loop_subseq [of 0 g] update_loop_removed [of _ g 0]
  by blast

theorem update_only_removes_witness:
  "pickups (update \<lparr>player = player_at 2 2, pickups = [0, 1],
      objects = (\<lambda>r. if r = 0 then pickup_at 2 2 else pickup_at 3 3), next_ref = 2\<rparr>) = [1]
   \<and> 0 \<in># mset [0, 1::nat] - mset [1]
   \<and> x (position (pickup_at 2 2)) = x (position (player_at 2 2))
   \<and> y (position (pickup_at 2 2)) = y (position (player_at 2 2))
   \<and> subseq [1] [0, 1::nat]"
proof -
  let ?g = "\<lparr>player = player_at 2 2, pickups = [0, 1],
      objects = (\<lambda>r. if r = 0 then pickup_at 2 2 else pickup_at 3 3), next_ref = 2\<rparr>"
  have p: "pickups (update ?g) = [1]"
    by (rule update_sample)
  have m: "(0::nat) \<in># mset (pickups ?g) - mset (pickups (update ?g))"
    unfolding p by simp
  from update_only_removes [of ?g]
  have s: "subseq (pickups (update ?g)) (pickups ?g)"
    and a: "\<forall>r \<in># mset (pickups ?g) - mset (pickups (update ?g)).
         x (position (objects ?g r)) = x (position (player ?g))
       \<and> y (position (objects ?g r)) = y (position (player ?g))"
    by blast+
  from a m have "x (position (objects ?g 0)) = x (position (player ?g))
       \<and> y (position (objects ?g 0)) = y (position (player ?g))"
    by blast
  with s show ?thesis unfolding p by (simp add: pickup_at_def player_at_def)
qed

text \<open>
  Claim C1. The loop of \<open>update\<close> advances its index after a removal has shifted the
  rest of the list down, so the pickup that followed the removed one is never compared.
  With the player and two pickups all at (2,2), one call leaves the second pickup in
  the list, still on the player's cell. The same happens right after a level start in
  which every pickup is drawn at the center: of four pickups two remain.
\<close>

theorem update_skips_after_removal:
  "pickups (update \<lparr>player = player_at 2 2, pickups = [0, 1],
      objects = (\<lambda>r. pickup_at 2 2), next_ref = 2\<rparr>) = [1]
   \<and> position (objects (update \<lparr>player = player_at 2 2, pickups = [0, 1],
        objects = (\<lambda>r. pickup_at 2 2), next_ref = 2\<rparr>) 1)
     = position (player (update \<lparr>player = player_at 2 2, pickups = [0, 1],
        objects = (\<lambda>r. pickup_at 2 2), next_ref = 2\<rparr>))
   \<and> pickups (update (fst (startLevel 4 (Game_init env_center)))) = [1, 3]"
proof (intro conjI)
  show "pickups (update \<lparr>player = player_at 2 2, pickups = [0, 1],
      objects = (\<lambda>r. pickup_at 2 2), next_ref = 2\<rparr>) = [1]"
    by (simp add: update_def update_loop.simps update_body_def pickup_at_def player_at_def)
  show "position (objects (update \<lparr>player = player_at 2 2, pickups = [0, 1],
        objects = (\<lambda>r. pickup_at 2 2), next_ref = 2\<rparr>) 1)
     = position (player (update \<lparr>player = player_at 2 2, pickups = [0, 1],
        objects = (\<lambda>r. pickup_at 2 2), next_ref = 2\<rparr>))"
    by (simp add: update_loop_frame update_def pickup_at_def player_at_def)
  show "pickups (update (fst (startLevel 4 (Game_init env_center)))) = [1, 3]"
    by code_simp
qed

subsection \<open>Grid bounds\<close>

lemma Pickup_init_in_grid: "in_grid (position (fst (Pickup_init e)))"
proof -
  have "0 \<le> int n mod 5 \<and> int n mod 5 \<le> 4" for n
    by presburger
  then show ?thesis
    by (simp add: Pickup_init_def randrange_def Let_def in_grid_def MAX_POSITION_def
        MIN_POSITION_def)
qed

lemma reset_center: "position (reset p) = \<lparr>x = 2, y = 2\<rparr>"
  by (simp add: reset_def SCREEN_CENTER_def)

lemma move_in_grid: "in_grid (position p) \<Longrightarrow> in_grid (position (move d p))"
  using constrainToBoundaries_range
  by (simp add: move_def in_grid_def)

lemma spawn_body_inv:
  assumes "\<forall>r \<in> set (pickups g). r < next_ref g \<and> in_grid (position (objects g r))"
  shows "\<forall>r \<in> set (pickups (fst (spawn_body (g, e)))).
           r < next_ref (fst (spawn_body (g, e)))
         \<and> in_grid (position (objects (fst (spawn_body (g, e))) r))"
  using assms Pickup_init_in_grid [of e]
  by (auto simp: Let_def split_def)

lemma spawn_loop_inv:
  "\<forall>r \<in> set (pickups (fst w)). r < next_ref (fst w) \<and> in_grid (position (objects (fst w) r))
   \<Longrightarrow> \<forall>r \<in> set (pickups (fst (spawn_loop n w))).
          r < next_ref (fst (spawn_loop n w))
        \<and> in_grid (position (objects (fst (spawn_loop n w)) r))"
proof (induction n arbitrary: w)
  case 0
  then show ?case by simp
next
  case (Suc n)
  obtain g e where w: "w = (g, e)" by (cases w)
  from Suc.prems have "\<forall>r \<in> set (pickups (fst (spawn_body w))).
           r < next_ref (fst (spawn_body w))
         \<and> in_grid (position (objects (fst (spawn_body w)) r))"
    unfolding w using spawn_body_inv [of g e] by simp
  from Suc.IH [OF this] show ?case by simp
qed

lemma spawnPickups_in_grid:
  "\<forall>r \<in> set (pickups (fst (spawnPickups n w))).
     in_grid (position (objects (fst (spawnPickups n w)) r))"
proof -
  obtain g e where w: "w = (g, e)" by (cases w)
  show ?thesis
    unfolding w using spawn_loop_inv [of "(g\<lparr>pickups := []\<rparr>, e)" "nat n"] by simp
qed

lemma startLevel_inv: "Game_inv (fst (startLevel n w))"
  using spawnPickups_in_grid [of n w]
  by (simp add: startLevel_def Game_inv_def split_def Let_def reset_center in_grid_def
      MIN_POSITION_def MAX_POSITION_def)

lemma getInput_pickups:
  "pickups (fst (getInput (g, e))) = pickups g \<and> objects (fst (getInput (g, e))) = objects g"
  by (simp add: split_def Let_def)

lemma getInput_inv: "Game_inv g \<Longrightarrow> Game_inv (fst (getInput (g, e)))"
  unfolding Game_inv_def
  by (simp only: getInput_pickups getInput_player) (simp add: move_in_grid)

lemma subseq_set_subset: "subseq xs ys \<Longrightarrow> set xs \<subseteq> set ys"
  by (induction rule: list_emb.induct) auto

lemma update_loop_set: "set (pickups (update_loop i g)) \<subseteq> set (pickups g)"
  by (rule subseq_set_subset) (rule update_loop_subseq)

lemma update_inv: "Game_inv g \<Longrightarrow> Game_inv (update g)"
  using update_loop_set [of 0 g]
  by (auto simp: Game_inv_def update_def update_loop_frame)

lemma Game_draw_game: "fst (Game_draw (g, e)) = g"
  by (simp add: split_def Let_def)

lemma playGame_body_game:
  "game (playGame_body t s) = update (fst (getInput (game s, env s)))"
proof -
  obtain g1 e1 where a: "getInput (game s, env s) = (g1, e1)"
    by (cases "getInput (game s, env s)")
  obtain g3 e3 where b: "Game_draw (update g1, e1) = (g3, e3)"
    by (cases "Game_draw (update g1, e1)")
  from b have "g3 = update g1"
    using Game_draw_game [of "update g1" e1] by simp
  then show ?thesis
    unfolding playGame_body_def a b by (simp add: Let_def split_def)
qed

lemma playGame_body_inv: "Game_inv (game s) \<Longrightarrow> Game_inv (game (playGame_body t s))"
  by (simp add: playGame_body_game getInput_inv update_inv del: getInput.simps)

text \<open>
  Claim C8. Every position the program produces is on the grid: a new Pickup is, the
  constructed and the reset Player are at the center \<open>(2, 2)\<close>, and \<open>move\<close> keeps a
  player on the grid there. Hence after every level start the player and all pickups
  of the list are on the grid, and input handling, the collision update and a whole
  tick of the game loop keep them there.
\<close>

theorem positions_stay_in_grid:
  "in_grid (position (fst (Pickup_init e)))
   \<and> position Player_init = \<lparr>x = 2, y = 2\<rparr>
   \<and> position (reset p) = \<lparr>x = 2, y = 2\<rparr>
   \<and> in_grid \<lparr>x = 2, y = 2\<rparr>
   \<and> (in_grid (position p) \<longrightarrow> in_grid (position (move d p)))
   \<and> Game_inv (fst (startLevel n w))
   \<and> (Game_inv g \<longrightarrow> Game_inv (fst (getInput (g, e))) \<and> Game_inv (update g))
   \<and> (Game_inv (game s) \<longrightarrow> Game_inv (game (playGame_body t s)))"
  using Pickup_init_in_grid [of e] reset_center [of p] move_in_grid [of p d]
    startLevel_inv [of n w] getInput_inv [of g e] update_inv [of g]
    playGame_body_inv [of s t]
  by (simp add: Player_init_def SCREEN_CENTER_def in_grid_def MIN_POSITION_def
      MAX_POSITION_def del: getInput.simps)

theorem positions_stay_in_grid_witness:
  "in_grid (position (player_at 0 4))
   \<and> in_grid (position (move ''S'' (player_at 0 4)))
   \<and> Game_inv (fst (startLevel 4 (Game_init env_center)))
   \<and> Game_inv (fst (getInput (fst (startLevel 4 (Game_init env_center)), env_center)))
   \<and> Game_inv (update (fst (startLevel 4 (Game_init env_center))))
   \<and> Game_inv (game (playGame_body 0
        \<lparr>game = fst (startLevel 4 (Game_init env_center)), env = env_center,
          pickup_amount = 4\<rparr>))"
proof -
  have a: "in_grid (position (player_at 0 4))"
    by (simp add: in_grid_def player_at_def MIN_POSITION_def MAX_POSITION_def)
  note t = positions_stay_in_grid [where p = "player_at 0 4" and d = "''S''" and n = 4
      and w = "Game_init env_center" and g = "fst (startLevel 4 (Game_init env_center))"
      and e = env_center and t = 0
      and s = "\<lparr>game = fst (startLevel 4 (Game_init env_center)), env = env_center,
          pickup_amount = 4\<rparr>"]
  from t have b: "Game_inv (fst (startLevel 4 (Game_init env_center)))"
    by blast
  from a b t show ?thesis
    by (simp del: getInput.simps)
qed

subsection \<open>Elapsed time\<close>

text \<open>The exponent found from the bit lengths is the exponent of the quotient.\<close>

lemma bitlen_powi_bounds:
  assumes "0 < a"
  shows "2 powi (bitlen a - 1) \<le> real_of_int a \<and> real_of_int a < 2 powi (bitlen a)"
proof -
  from assms have b: "2 ^ nat (bitlen a - 1) \<le> a \<and> a < 2 ^ nat (bitlen a)"
    by (rule bitlen_bounds)
  from assms have pos: "1 \<le> bitlen a"
    by (auto simp: bitlen_alt_def)
  have "(2::real) powi (bitlen a - 1) = 2 ^ nat (bitlen a - 1)"
    using pos by (simp add: power_int_def)
  moreover have "(2::real) powi (bitlen a) = 2 ^ nat (bitlen a)"
    using pos by (simp add: power_int_def)
  moreover have "real_of_int (2 ^ nat (bitlen a - 1)) \<le> real_of_int a"
    using b by (simp only: of_int_le_iff)
  moreover have "real_of_int a < real_of_int (2 ^ nat (bitlen a))"
    using b by (simp only: of_int_less_iff)
  ultimately show ?thesis by simp
qed

lemma quotient_exponent_bounds:
  assumes "0 < a" and "0 < b"
  shows "2 powi (quotient_exponent a b) \<le> real_of_int a / real_of_int b
     \<and> real_of_int a / real_of_int b < 2 powi (quotient_exponent a b + 1)"
proof -
  define d where "d = bitlen a - bitlen b"
  have ba: "2 powi (bitlen a - 1) \<le> real_of_int a" "real_of_int a < 2 powi (bitlen a)"
    using bitlen_powi_bounds [OF assms(1)] by simp_all
  have bb: "2 powi (bitlen b - 1) \<le> real_of_int b" "real_of_int b < 2 powi (bitlen b)"
    using bitlen_powi_bounds [OF assms(2)] by simp_all
  have rb: "0 < real_of_int b" using assms(2) by simp
  show ?thesis
  proof (cases "real_of_int b * 2 powi d \<le> real_of_int a")
    case True
    then have e: "quotient_exponent a b = d"
      by (simp add: quotient_exponent_def d_def)
    have "real_of_int a < 2 powi (bitlen b - 1 + (d + 1))"
      using ba(2) by (simp add: d_def)
    also have "\<dots> = 2 powi (bitlen b - 1) * 2 powi (d + 1)"
      by (rule power_int_add) simp
    also have "\<dots> \<le> real_of_int b * 2 powi (d + 1)"
      using bb(1) by (simp add: mult_right_mono)
    finally have "real_of_int a / real_of_int b < 2 powi (d + 1)"
      using rb by (simp add: field_simps)
    moreover from True have "2 powi d \<le> real_of_int a / real_of_int b"
      using rb by (simp add: field_simps)
    ultimately show ?thesis by (simp add: e)
  next
    case False
    then have e: "quotient_exponent a b = d - 1"
      by (simp add: quotient_exponent_def d_def)
    have "real_of_int b * 2 powi (d - 1) < 2 powi (bitlen b) * 2 powi (d - 1)"
      using bb(2) by (simp add: mult_strict_right_mono)
    also have "\<dots> = 2 powi (bitlen b + (d - 1))"
      by (rule power_int_add [symmetric]) simp
    also have "\<dots> \<le> real_of_int a"
      using ba(1) by (simp add: d_def)
    finally have "2 powi (d - 1) \<le> real_of_int a / real_of_int b"
      using rb by (simp add: field_simps)
    moreover from False have "real_of_int a / real_of_int b < 2 powi d"
      using rb by (simp add: field_simps)
    ultimately show ?thesis by (simp add: e)
  qed
qed

lemma round_half_even_ge: "real_of_int m \<le> r \<Longrightarrow> m \<le> round_half_even r"
proof -
  assume "real_of_int m \<le> r"
  then have "m \<le> \<lfloor>r\<rfloor>" by (simp add: le_floor_iff)
  then show ?thesis by (simp add: round_half_even_def Let_def)
qed

lemma round_half_even_le: "round_half_even r \<le> \<lfloor>r\<rfloor> + 1"
  by (simp add: round_half_even_def Let_def)

lemma round_half_even_less:
  assumes "r < real_of_int m - 1 / 2"
  shows "round_half_even r < m"
proof -
  have "r < real_of_int m"
    using assms by linarith
  then have "\<lfloor>r\<rfloor> < m"
    by (simp add: floor_less_iff)
  then consider "\<lfloor>r\<rfloor> = m - 1" | "\<lfloor>r\<rfloor> + 1 < m"
    by linarith
  then show ?thesis
  proof cases
    case 1
    with assms have "r - real_of_int \<lfloor>r\<rfloor> < 1 / 2"
      by simp
    then have "round_half_even r = \<lfloor>r\<rfloor>"
      by (simp add: round_half_even_def Let_def)
    with 1 show ?thesis by simp
  next
    case 2
    with round_half_even_le [of r] show ?thesis by linarith
  qed
qed

lemma float_truediv_1000:
  assumes "0 \<le> n" and "n + 1000 \<le> 2 ^ p"
  shows "py_int (float_truediv p n 1000) = n div 1000"
proof (cases "n = 0")
  case True
  then show ?thesis by (simp add: float_truediv_def py_int_def)
next
  case False
  with assms(1) have npos: "0 < n" by simp
  define v where "v = real_of_int n / 1000"
  define q where "q = n div 1000"
  define e where "e = quotient_exponent n 1000"
  define u :: real where "u = 2 powi (e - int p + 1)"
  have fl: "float_truediv p n 1000 = real_of_int (round_half_even (v / u)) * u"
    using npos by (simp add: float_truediv_def Let_def v_def e_def u_def)
  have upos: "0 < u" by (simp add: u_def)
  have low: "2 powi e \<le> v"
    using quotient_exponent_bounds [of n 1000] npos by (simp add: e_def v_def)
  have "real_of_int (n + 1000) \<le> real_of_int (2 ^ p)"
    using assms(2) by (simp only: of_int_le_iff)
  then have np: "real_of_int n + 1000 \<le> 2 ^ p" by simp
  then have rn: "real_of_int n < 2 ^ p" by linarith
  then have vp: "v < 2 ^ p / 1000"
    unfolding v_def by (rule divide_strict_right_mono) simp
  have "v \<le> real_of_int n"
    unfolding v_def using npos by simp
  with low rn have "2 powi e < (2::real) ^ p"
    by linarith
  then have "(2::real) powi e < 2 powi (int p)"
    by simp
  then have ep: "e < int p"
    using power_int_le_imp_less_exp [of "2::real" e "int p"] by simp
  define k where "k = nat (int p - 1 - e)"
  have uk: "u = 1 / 2 ^ k"
  proof -
    have "e - int p + 1 = - int k" using ep by (simp add: k_def)
    then have "u = 2 powi (- int k)" unfolding u_def by (simp only:)
    also have "\<dots> = 1 / 2 ^ k"
      by (simp only: power_int_minus power_int_of_nat inverse_eq_divide)
    finally show ?thesis .
  qed
  have qv: "real_of_int q \<le> v"
    by (simp add: q_def v_def)
  have "real_of_int (q * 2 ^ k) \<le> v / u"
    using qv by (simp add: uk)
  then have "q * 2 ^ k \<le> round_half_even (v / u)"
    by (rule round_half_even_ge)
  then have "real_of_int (q * 2 ^ k) \<le> real_of_int (round_half_even (v / u))"
    by (simp only: of_int_le_iff)
  then have "real_of_int (q * 2 ^ k) * u \<le> real_of_int (round_half_even (v / u)) * u"
    using upos by (simp add: mult_right_mono)
  then have lower: "real_of_int q \<le> float_truediv p n 1000"
    by (simp add: fl uk)
  have "u = 2 powi e * 2 powi (1 - int p)"
  proof -
    have "e - int p + 1 = e + (1 - int p)" by simp
    then have "u = 2 powi (e + (1 - int p))" unfolding u_def by (simp only:)
    also have "\<dots> = 2 powi e * 2 powi (1 - int p)"
      by (rule power_int_add) simp
    finally show ?thesis .
  qed
  also have "\<dots> \<le> v * 2 powi (1 - int p)"
    using low by (simp add: mult_right_mono)
  also have "\<dots> < 2 ^ p / 1000 * 2 powi (1 - int p)"
    using vp by (simp add: mult_strict_right_mono)
  also have "\<dots> = 1 / 500"
    by (simp add: power_int_diff)
  finally have usmall: "u < 1 / 500" .
  have "n < 1000 * (q + 1)"
    unfolding q_def by (simp add: algebra_simps)
  then have "n + 1 \<le> 1000 * (q + 1)" by simp
  then have "real_of_int (n + 1) \<le> real_of_int (1000 * (q + 1))"
    by (simp only: of_int_le_iff)
  then have gap: "v + 1 / 1000 \<le> real_of_int q + 1"
    by (simp add: v_def)
  have "v / u < real_of_int ((q + 1) * 2 ^ k) - 1 / 2"
  proof -
    have "u / 2 < 1 / 1000"
      using usmall by linarith
    with gap have "v + u / 2 < real_of_int q + 1"
      by linarith
    then have "(v + u / 2) / u < (real_of_int q + 1) / u"
      using upos by (rule divide_strict_right_mono)
    moreover have "(v + u / 2) / u = v / u + 1 / 2"
      using upos by (simp add: field_simps)
    moreover have "(real_of_int q + 1) / u = real_of_int ((q + 1) * 2 ^ k)"
      by (simp add: uk)
    ultimately show ?thesis by linarith
  qed
  then have "round_half_even (v / u) < (q + 1) * 2 ^ k"
    by (rule round_half_even_less)
  then have "real_of_int (round_half_even (v / u)) < real_of_int ((q + 1) * 2 ^ k)"
    by (simp only: of_int_less_iff)
  then have "real_of_int (round_half_even (v / u)) * u < real_of_int ((q + 1) * 2 ^ k) * u"
    using upos by (simp add: mult_strict_right_mono)
  then have upper: "float_truediv p n 1000 < real_of_int q + 1"
    by (simp add: fl uk)
  have "0 \<le> q" using assms(1) by (simp add: q_def)
  with lower have nonneg: "0 \<le> float_truediv p n 1000" by simp
  have "\<lfloor>float_truediv p n 1000\<rfloor> = q"
    using lower upper by (simp add: floor_eq_iff)
  with nonneg show ?thesis by (simp add: py_int_def q_def)
qed

lemma findApproxFacingDirection_frame:
  "clock (snd (findApproxFacingDirection e)) = clock e
   \<and> float_bits (snd (findApproxFacingDirection e)) = float_bits e
   \<and> effects (snd (findApproxFacingDirection e)) = effects e
   \<and> presses_a (snd (findApproxFacingDirection e)) = presses_a e
   \<and> presses_b (snd (findApproxFacingDirection e)) = presses_b e"
  by (simp add: findApproxFacingDirection_def py_or_def py_and_def heading_gt_def
      heading_lt_def compass_heading_def Let_def)

lemma getAcceleration_frame:
  "clock (snd (getAcceleration e)) = clock e
   \<and> float_bits (snd (getAcceleration e)) = float_bits e
   \<and> effects (snd (getAcceleration e)) = effects e
   \<and> headings (snd (getAcceleration e)) = headings e
   \<and> presses_a (snd (getAcceleration e)) = presses_a e
   \<and> presses_b (snd (getAcceleration e)) = presses_b e"
  by (simp add: getAcceleration_def accelerometer_get_x_def accelerometer_get_y_def
      accelerometer_get_z_def Let_def)

lemma getInput_clock:
  "clock (snd (getInput (g, e))) = clock e
   \<and> float_bits (snd (getInput (g, e))) = float_bits e"
  by (simp add: split_def Let_def findApproxFacingDirection_frame getAcceleration_frame
      button_a_was_pressed_def button_b_was_pressed_def emit_def)

lemma foldl_draw_pixel_clock:
  "clock (foldl (\<lambda>e' r. draw_pixel (f r) (h r) (k r) e') e rs) = clock e
   \<and> float_bits (foldl (\<lambda>e' r. draw_pixel (f r) (h r) (k r) e') e rs) = float_bits e"
  by (induction rs arbitrary: e) (simp_all add: draw_pixel_def emit_def)

lemma drawPickups_clock:
  "clock (snd (drawPickups (g, e))) = clock e
   \<and> float_bits (snd (drawPickups (g, e))) = float_bits e"
  by (simp add: foldl_draw_pixel_clock)

lemma Game_draw_clock:
  "clock (snd (Game_draw (g, e))) = clock e
   \<and> float_bits (snd (Game_draw (g, e))) = float_bits e"
  using drawPickups_clock [of g "emit DisplayClear e"]
  by (simp add: split_def Let_def Player_draw_def draw_pixel_def emit_def
      del: drawPickups.simps)

lemma playGame_body_effects:
  assumes "isGameOver (update (fst (getInput (game s, env s))))"
  shows "effects (env (playGame_body t s)) =
        effects (snd (Game_draw (update (fst (getInput (game s, env s))),
                                 snd (getInput (game s, env s)))))
        @ [Scroll (''TIME:''
             @ str (py_int (float_truediv (float_bits (env s)) (clock (env s) 0 - t) 1000))
             @ '' SECONDS.''),
           Sleep 100]"
proof -
  obtain g1 e1 where a: "getInput (game s, env s) = (g1, e1)"
    by (cases "getInput (game s, env s)")
  obtain g3 e3 where b: "Game_draw (update g1, e1) = (g3, e3)"
    by (cases "Game_draw (update g1, e1)")
  have g3: "g3 = update g1"
    using Game_draw_game [of "update g1" e1] unfolding b by simp
  have "clock e1 = clock (env s) \<and> float_bits e1 = float_bits (env s)"
    using getInput_clock [of "game s" "env s"] unfolding a by simp
  moreover have "clock e3 = clock e1 \<and> float_bits e3 = float_bits e1"
    using Game_draw_clock [of "update g1" e1] unfolding b by simp
  ultimately have c3: "clock e3 0 = clock (env s) 0" "float_bits e3 = float_bits (env s)"
    by simp_all
  from assms a have over3: "isGameOver g3"
    by (simp add: g3)
  show ?thesis
    using over3 c3
    by (simp add: playGame_body_def a b Let_def running_time_def emit_def
        del: Game_draw.simps getInput.simps)
qed

text \<open>
  Claim C5, as the code has it. In the tick that empties the pickup list, the game
  scrolls \<open>TIME:n SECONDS.\<close> as its last display call before the sleep. When the clock
  did not run backwards and the elapsed milliseconds plus 1000 do not exceed \<open>2\<^sup>p\<close>,
  \<open>p\<close> the number of significand bits of a float, \<open>n\<close> is the elapsed time divided by
  1000 and truncated; 2500 ms give 2 on every platform with at least 12 such bits.
\<close>

theorem reported_seconds_truncate:
  "(isGameOver (update (fst (getInput (game s, env s))))
      \<and> t \<le> clock (env s) 0
      \<and> clock (env s) 0 - t + 1000 \<le> 2 ^ float_bits (env s) \<longrightarrow>
      effects (env (playGame_body t s)) =
        effects (snd (Game_draw (update (fst (getInput (game s, env s))),
                                 snd (getInput (game s, env s)))))
        @ [Scroll (''TIME:'' @ str ((clock (env s) 0 - t) div 1000) @ '' SECONDS.''),
           Sleep 100])
   \<and> (isGameOver (update (fst (getInput (game s, env s))))
      \<and> clock (env s) 0 - t = 2500
      \<and> 12 \<le> float_bits (env s) \<longrightarrow>
      effects (env (playGame_body t s)) =
        effects (snd (Game_draw (update (fst (getInput (game s, env s))),
                                 snd (getInput (game s, env s)))))
        @ [Scroll ''TIME:2 SECONDS.'', Sleep 100])"
proof (intro conjI impI)
  assume h: "isGameOver (update (fst (getInput (game s, env s))))
      \<and> t \<le> clock (env s) 0
      \<and> clock (env s) 0 - t + 1000 \<le> 2 ^ float_bits (env s)"
  then have over: "isGameOver (update (fst (getInput (game s, env s))))"
    and le: "0 \<le> clock (env s) 0 - t"
    and small: "clock (env s) 0 - t + 1000 \<le> 2 ^ float_bits (env s)"
    by simp_all
  from le small
  have "py_int (float_truediv (float_bits (env s)) (clock (env s) 0 - t) 1000)
      = (clock (env s) 0 - t) div 1000"
    by (rule float_truediv_1000)
  then show "effects (env (playGame_body t s)) =
        effects (snd (Game_draw (update (fst (getInput (game s, env s))),
                                 snd (getInput (game s, env s)))))
        @ [Scroll (''TIME:'' @ str ((clock (env s) 0 - t) div 1000) @ '' SECONDS.''),
           Sleep 100]"
    using playGame_body_effects [OF over, of t] by (simp only:)
next
  assume h: "isGameOver (update (fst (getInput (game s, env s))))
      \<and> clock (env s) 0 - t = 2500
      \<and> 12 \<le> float_bits (env s)"
  then have over: "isGameOver (update (fst (getInput (game s, env s))))"
    and diff: "clock (env s) 0 - t = 2500"
    and bits: "12 \<le> float_bits (env s)"
    by simp_all
  from bits have "(2::int) ^ 12 \<le> 2 ^ float_bits (env s)"
    by (rule power_increasing) simp
  then have "(2500::int) + 1000 \<le> 2 ^ float_bits (env s)"
    by simp
  then have "py_int (float_truediv (float_bits (env s)) 2500 1000) = 2500 div 1000"
    by (intro float_truediv_1000) simp_all
  then have "str (py_int (float_truediv (float_bits (env s)) (clock (env s) 0 - t) 1000))
      = ''2''"
    by (simp add: diff str_def)
  then show "effects (env (playGame_body t s)) =
        effects (snd (Game_draw (update (fst (getInput (game s, env s))),
                                 snd (getInput (game s, env s)))))
        @ [Scroll ''TIME:2 SECONDS.'', Sleep 100]"
    using playGame_body_effects [OF over, of t] by simp
qed

theorem reported_seconds_truncate_witness:
  "isGameOver (update (fst (getInput
      (\<lparr>player = player_at 2 2, pickups = [0], objects = (\<lambda>r. pickup_at 2 2), next_ref = 1\<rparr>,
       env_center\<lparr>clock := (\<lambda>_. 2500)\<rparr>))))
   \<and> (0::int) \<le> 2500
   \<and> (2500::int) - 0 + 1000 \<le> 2 ^ float_bits (env_center\<lparr>clock := (\<lambda>_. 2500)\<rparr>)
   \<and> 12 \<le> float_bits (env_center\<lparr>clock := (\<lambda>_. 2500)\<rparr>)
   \<and> effects (env (playGame_body 0
        \<lparr>game = \<lparr>player = player_at 2 2, pickups = [0], objects = (\<lambda>r. pickup_at 2 2),
                  next_ref = 1\<rparr>,
         env = env_center\<lparr>clock := (\<lambda>_. 2500)\<rparr>, pickup_amount = 4\<rparr>))
       = [DisplayClear, SetPixel 2 2 9, Scroll ''TIME:2 SECONDS.'', Sleep 100]"
proof -
  let ?g = "\<lparr>player = player_at 2 2, pickups = [0], objects = (\<lambda>r. pickup_at 2 2),
      next_ref = 1\<rparr>"
  let ?e = "env_center\<lparr>clock := (\<lambda>_. 2500)\<rparr>"
  let ?s = "\<lparr>game = ?g, env = ?e, pickup_amount = 4\<rparr>"
  have over: "isGameOver (update (fst (getInput (?g, ?e))))"
    by code_simp
  have bits: "float_bits ?e = 53"
    by (simp add: env_center_def)
  have drawn: "effects (snd (Game_draw (update (fst (getInput (?g, ?e))),
      snd (getInput (?g, ?e))))) = [DisplayClear, SetPixel 2 2 9]"
    by code_simp
  have "effects (env (playGame_body 0 ?s)) =
        effects (snd (Game_draw (update (fst (getInput (?g, ?e))), snd (getInput (?g, ?e)))))
        @ [Scroll ''TIME:2 SECONDS.'', Sleep 100]"
    using reported_seconds_truncate [where s = ?s and t = 0, THEN conjunct2] over bits
    by (simp del: getInput.simps Game_draw.simps)
  then show ?thesis
    using over drawn bits by (simp del: getInput.simps Game_draw.simps)
qed

text \<open>
  With IEEE doubles and 17592186044416999 ms on the clock at a level that started at 0,
  the quotient 17592186044416.999 is nearer to the float 17592186044417 than to any
  other, so the game reports 17592186044417 seconds, one more than the truncated
  quotient.
\<close>

theorem reported_seconds_round_up:
  "isGameOver (update (fst (getInput
      (\<lparr>player = player_at 2 2, pickups = [0], objects = (\<lambda>r. pickup_at 2 2), next_ref = 1\<rparr>,
       env_center\<lparr>clock := (\<lambda>_. 17592186044416999)\<rparr>))))
   \<and> (0::int) \<le> 17592186044416999
   \<and> effects (env (playGame_body 0
        \<lparr>game = \<lparr>player = player_at 2 2, pickups = [0], objects = (\<lambda>r. pickup_at 2 2),
                  next_ref = 1\<rparr>,
         env = env_center\<lparr>clock := (\<lambda>_. 17592186044416999)\<rparr>, pickup_amount = 4\<rparr>))
       = [DisplayClear, SetPixel 2 2 9, Scroll ''TIME:17592186044417 SECONDS.'', Sleep 100]
   \<and> (17592186044416999 - 0) div 1000 = (17592186044416::int)
   \<and> str 17592186044416 \<noteq> str 17592186044417"
proof -
  let ?g = "\<lparr>player = player_at 2 2, pickups = [0], objects = (\<lambda>r. pickup_at 2 2),
      next_ref = 1\<rparr>"
  let ?e = "env_center\<lparr>clock := (\<lambda>_. 17592186044416999)\<rparr>"
  let ?s = "\<lparr>game = ?g, env = ?e, pickup_amount = 4\<rparr>"
  have over: "isGameOver (update (fst (getInput (?g, ?e))))"
    by code_simp
  have drawn: "effects (snd (Game_draw (update (fst (getInput (?g, ?e))),
      snd (getInput (?g, ?e))))) = [DisplayClear, SetPixel 2 2 9]"
    by code_simp
  have q: "py_int (float_truediv (float_bits env_center) 17592186044416999 1000)
      = 17592186044417"
    by code_simp
  have st: "str 17592186044417 = ''17592186044417''"
    by (simp add: str_def)
  have ne: "str 17592186044416 \<noteq> str 17592186044417"
    by (simp add: str_def)
  have "effects (env (playGame_body 0 ?s)) =
      [DisplayClear, SetPixel 2 2 9, Scroll ''TIME:17592186044417 SECONDS.'', Sleep 100]"
    using playGame_body_effects [of ?s 0] over drawn
    by (simp add: q st del: getInput.simps Game_draw.simps)
  with over ne show ?thesis
    by (simp del: getInput.simps Game_draw.simps)
qed

subsection \<open>Level progression\<close>









end
